theory Spec2Isabelle
  imports Main
begin

section \<open>Error values and their classification (state/errors.go)\<close>

text \<open>
  The three predicates take a Go value of type \<^verbatim>\<open>interface{}\<close>. Such a value is nil,
  or it has a dynamic type that implements \<^verbatim>\<open>error\<close>, or it has some other dynamic type
  (a string, a number, a struct without an \<^verbatim>\<open>Error\<close> method).

  The error types of the file are the three pointer types it declares. Every other error
  is either a plain one (\<^verbatim>\<open>fmt.Errorf\<close>, \<^verbatim>\<open>ErrDead\<close>), or a wrapper that carries a
  cause and a message, as \<^verbatim>\<open>errors.Trace\<close> and \<^verbatim>\<open>errors.Annotate\<close> build them.
\<close>

datatype goerror =
    ErrCharmAlreadyUploaded string
  | ErrProviderIDNotUnique "string list"
  | ErrParentDeviceHasChildren string int
  | ErrPlain string
  | ErrWrapped "goerror option" string

datatype iface =
    Nil
  | ErrorValue goerror
  | OtherValue string

text \<open>
  The type assertion \<^verbatim>\<open>err.(error)\<close> has no second result, so it panics when the dynamic
  type of \<^verbatim>\<open>err\<close> does not implement \<^verbatim>\<open>error\<close>. The panic is a value of the model.
\<close>

datatype panic = TypeAssertionPanic

text \<open>
  The type assertions with two results at the end of each predicate: whether the dynamic
  type of the value is the pointer type asked for.
\<close>

fun is_ErrCharmAlreadyUploaded :: "goerror \<Rightarrow> bool" where
  "is_ErrCharmAlreadyUploaded (ErrCharmAlreadyUploaded curl) = True"
| "is_ErrCharmAlreadyUploaded e = False"

fun is_ErrProviderIDNotUnique :: "goerror \<Rightarrow> bool" where
  "is_ErrProviderIDNotUnique (ErrProviderIDNotUnique ids) = True"
| "is_ErrProviderIDNotUnique e = False"

fun is_ErrParentDeviceHasChildren :: "goerror \<Rightarrow> bool" where
  "is_ErrParentDeviceHasChildren (ErrParentDeviceHasChildren parentName numChildren) = True"
| "is_ErrParentDeviceHasChildren e = False"

text \<open>
  \<^verbatim>\<open>errors.Cause\<close> belongs to the library github.com/juju/errors, so the predicates take
  it as the parameter \<open>cause\<close>: a function from an error to an error that may be nil
  (\<open>None\<close>). Each predicate follows its source line by line: the nil test, the
  assertion to \<^verbatim>\<open>error\<close>, the cause replacing the value when it is not nil, and the
  final type test.
\<close>

fun IsCharmAlreadyUploadedError :: "(goerror \<Rightarrow> goerror option) \<Rightarrow> iface \<Rightarrow> panic + bool" where
  "IsCharmAlreadyUploadedError cause Nil = Inr False"
| "IsCharmAlreadyUploadedError cause (OtherValue d) = Inl TypeAssertionPanic"
| "IsCharmAlreadyUploadedError cause (ErrorValue e) =
     (let val = (case cause e of None \<Rightarrow> e | Some c \<Rightarrow> c)
      in Inr (is_ErrCharmAlreadyUploaded val))"

fun IsProviderIDNotUniqueError :: "(goerror \<Rightarrow> goerror option) \<Rightarrow> iface \<Rightarrow> panic + bool" where
  "IsProviderIDNotUniqueError cause Nil = Inr False"
| "IsProviderIDNotUniqueError cause (OtherValue d) = Inl TypeAssertionPanic"
| "IsProviderIDNotUniqueError cause (ErrorValue e) =
     (let val = (case cause e of None \<Rightarrow> e | Some c \<Rightarrow> c)
      in Inr (is_ErrProviderIDNotUnique val))"

fun IsParentDeviceHasChildrenError :: "(goerror \<Rightarrow> goerror option) \<Rightarrow> iface \<Rightarrow> panic + bool" where
  "IsParentDeviceHasChildrenError cause Nil = Inr False"
| "IsParentDeviceHasChildrenError cause (OtherValue d) = Inl TypeAssertionPanic"
| "IsParentDeviceHasChildrenError cause (ErrorValue e) =
     (let val = (case cause e of None \<Rightarrow> e | Some c \<Rightarrow> c)
      in Inr (is_ErrParentDeviceHasChildren val))"

text \<open>
  One instance of the parameter, used to run the predicates: a wrapper with a cause
  yields that cause, every other error yields itself.
\<close>

fun Cause :: "goerror \<Rightarrow> goerror option" where
  "Cause (ErrWrapped (Some c) msg) = Some c"
| "Cause e = Some e"

section \<open>The provisioner: data\<close>

text \<open>
  The second part of the file is the provisioning agent: the two watcher holders
  \<^verbatim>\<open>environment\<close> and \<^verbatim>\<open>machines\<close>, and the \<^verbatim>\<open>Provisioner\<close> with its goroutine
  (\<^verbatim>\<open>loop\<close> and \<^verbatim>\<open>innerLoop\<close>).
\<close>

type_synonym attrs = "(string \<times> string) list"

datatype ConfigNode = ConfigNode (Map: attrs)

datatype MachinesChange = MachinesChange "string list"

text \<open>
  Modelled from the spec: the state store \<^verbatim>\<open>*state.State\<close> and its watchers are not in
  the source file. The spec gives the store "a subscribe/unsubscribe primitive", and each
  watch "a handle exposing a receive-only change channel and a stop()/release operation".
  The model keeps the ledger of the store: how many watches of each kind were opened
  (a watcher is named by its number), and which of them were stopped, in order.
\<close>

record State =
  config_opened :: nat
  config_stopped :: "nat list"
  machines_opened :: nat
  machines_stopped :: "nat list"

datatype ConfigChan = ConfigChan nat

datatype MachinesChan = MachinesChan nat

text \<open>Modelled from the spec: \<^verbatim>\<open>st.WatchEnvironConfig()\<close> opens a new watch.\<close>

definition WatchEnvironConfig :: "State \<Rightarrow> nat \<times> State" where
  "WatchEnvironConfig st = (config_opened st, st\<lparr>config_opened := Suc (config_opened st)\<rparr>)"

text \<open>Modelled from the spec: \<^verbatim>\<open>st.WatchMachines()\<close> opens a new watch.\<close>

definition WatchMachines :: "State \<Rightarrow> nat \<times> State" where
  "WatchMachines st = (machines_opened st, st\<lparr>machines_opened := Suc (machines_opened st)\<rparr>)"

text \<open>
  Modelled from the spec: \<^verbatim>\<open>watcher.Changes()\<close> is the receive-only channel of the
  watcher, the same channel at every call.
\<close>

definition ConfigWatcher_Changes :: "nat \<Rightarrow> ConfigChan" where
  "ConfigWatcher_Changes i = ConfigChan i"

definition MachinesWatcher_Changes :: "nat \<Rightarrow> MachinesChan" where
  "MachinesWatcher_Changes i = MachinesChan i"

text \<open>
  Modelled from the spec: \<^verbatim>\<open>watcher.Stop()\<close> releases the watch and returns an error or
  nil. Which error is the store's business: \<open>stop_err\<close> is a parameter.
\<close>

definition ConfigWatcher_Stop :: "(nat \<Rightarrow> string option) \<Rightarrow> nat \<Rightarrow> State \<Rightarrow> string option \<times> State" where
  "ConfigWatcher_Stop stop_err i st = (stop_err i, st\<lparr>config_stopped := config_stopped st @ [i]\<rparr>)"

definition MachinesWatcher_Stop :: "(nat \<Rightarrow> string option) \<Rightarrow> nat \<Rightarrow> State \<Rightarrow> string option \<times> State" where
  "MachinesWatcher_Stop stop_err i st = (stop_err i, st\<lparr>machines_stopped := machines_stopped st @ [i]\<rparr>)"

text \<open>The watches that were opened and not stopped.\<close>

definition config_live :: "State \<Rightarrow> nat list" where
  "config_live st = filter (\<lambda>i. i \<notin> set (config_stopped st)) [0 ..< config_opened st]"

definition machines_live :: "State \<Rightarrow> nat list" where
  "machines_live st = filter (\<lambda>i. i \<notin> set (machines_stopped st)) [0 ..< machines_opened st]"

text \<open>The lines that the code writes with \<^verbatim>\<open>log.Printf\<close>, one constructor per call site.\<close>

datatype logline =
    EnvironmentWatcherExited "string option"
  | MachinesWatcherExited "string option"
  | UnableToCreateEnvironment string
  | ValidEnvironmentConfigured
  | ConfigurationNotValid string
  | NewConfigurationApplied

text \<open>
  What the watcher holders share: the store that all the \<^verbatim>\<open>st\<close> fields point to, and
  the output of the package \<^verbatim>\<open>log\<close>. A method takes it and returns it updated.
\<close>

record World =
  store :: State
  logged :: "logline list"

text \<open>
  The structs \<^verbatim>\<open>environment\<close> and \<^verbatim>\<open>machines\<close>. The field \<^verbatim>\<open>st\<close> is the pointer
  to the store of the world; \<^verbatim>\<open>watcher\<close> is nil (\<open>None\<close>) or a watcher.
\<close>

record environment =
  e_watcher :: "nat option"

record machines =
  m_watcher :: "nat option"

section \<open>The provisioner: the watcher holders\<close>

definition environment_changes :: "World \<Rightarrow> environment \<Rightarrow> ConfigChan \<times> World \<times> environment" where
  "environment_changes w e =
     (case e_watcher e of
        None \<Rightarrow>
          (let (i, st') = WatchEnvironConfig (store w)
           in (ConfigWatcher_Changes i, w\<lparr>store := st'\<rparr>, e\<lparr>e_watcher := Some i\<rparr>))
      | Some i \<Rightarrow> (ConfigWatcher_Changes i, w, e))"

definition environment_invalidate :: "(nat \<Rightarrow> string option) \<Rightarrow> World \<Rightarrow> environment \<Rightarrow> World \<times> environment" where
  "environment_invalidate stop_err w e =
     (case e_watcher e of
        None \<Rightarrow> (w, e\<lparr>e_watcher := None\<rparr>)
      | Some i \<Rightarrow>
          (let (err, st') = ConfigWatcher_Stop stop_err i (store w)
           in (w\<lparr>store := st', logged := logged w @ [EnvironmentWatcherExited err]\<rparr>,
               e\<lparr>e_watcher := None\<rparr>)))"

definition machines_changes :: "World \<Rightarrow> machines \<Rightarrow> MachinesChan \<times> World \<times> machines" where
  "machines_changes w m =
     (case m_watcher m of
        None \<Rightarrow>
          (let (i, st') = WatchMachines (store w)
           in (MachinesWatcher_Changes i, w\<lparr>store := st'\<rparr>, m\<lparr>m_watcher := Some i\<rparr>))
      | Some i \<Rightarrow> (MachinesWatcher_Changes i, w, m))"

definition machines_invalidate :: "(nat \<Rightarrow> string option) \<Rightarrow> World \<Rightarrow> machines \<Rightarrow> World \<times> machines" where
  "machines_invalidate stop_err w m =
     (case m_watcher m of
        None \<Rightarrow> (w, m\<lparr>m_watcher := None\<rparr>)
      | Some i \<Rightarrow>
          (let (err, st') = MachinesWatcher_Stop stop_err i (store w)
           in (w\<lparr>store := st', logged := logged w @ [MachinesWatcherExited err]\<rparr>,
               m\<lparr>m_watcher := None\<rparr>)))"

text \<open>
  A history of one holder: any sequence of calls of its two methods, starting from the
  holder as \<^verbatim>\<open>NewProvisioner\<close> builds it (no watcher) on a store with no watch.
\<close>

datatype holder_call = CallChanges | CallInvalidate

definition new_world :: World where
  "new_world = \<lparr>store = \<lparr>config_opened = 0, config_stopped = [], machines_opened = 0,
                          machines_stopped = []\<rparr>,
                logged = []\<rparr>"

fun environment_call :: "(nat \<Rightarrow> string option) \<Rightarrow> holder_call \<Rightarrow> World \<times> environment \<Rightarrow> World \<times> environment" where
  "environment_call stop_err CallChanges (w, e) = snd (environment_changes w e)"
| "environment_call stop_err CallInvalidate (w, e) = environment_invalidate stop_err w e"

fun machines_call :: "(nat \<Rightarrow> string option) \<Rightarrow> holder_call \<Rightarrow> World \<times> machines \<Rightarrow> World \<times> machines" where
  "machines_call stop_err CallChanges (w, m) = snd (machines_changes w m)"
| "machines_call stop_err CallInvalidate (w, m) = machines_invalidate stop_err w m"

definition environment_history :: "(nat \<Rightarrow> string option) \<Rightarrow> holder_call list \<Rightarrow> World \<times> environment" where
  "environment_history stop_err cs = fold (environment_call stop_err) cs (new_world, \<lparr>e_watcher = None\<rparr>)"

definition machines_history :: "(nat \<Rightarrow> string option) \<Rightarrow> holder_call list \<Rightarrow> World \<times> machines" where
  "machines_history stop_err cs = fold (machines_call stop_err) cs (new_world, \<lparr>m_watcher = None\<rparr>)"

section \<open>The provisioner: the goroutine\<close>

text \<open>
  The packages \<^verbatim>\<open>environs\<close> and \<^verbatim>\<open>tomb\<close> are not in the source file. What the
  goroutine calls in \<^verbatim>\<open>environs\<close> is a parameter of the model: \<^verbatim>\<open>NewEnviron\<close> and
  \<^verbatim>\<open>NewConfig\<close> return an error (\<open>Inl\<close>) or a value (\<open>Inr\<close>, with a nil error), and
  \<^verbatim>\<open>SetConfig\<close> changes the handle it is called on (the code drops what it returns).
  The two last fields are the errors that \<^verbatim>\<open>Stop\<close> returns on a watcher.
\<close>

record ('env, 'cfg) externs =
  NewEnviron :: "attrs \<Rightarrow> string + 'env"
  NewConfig :: "attrs \<Rightarrow> string + 'cfg"
  SetConfig :: "'cfg \<Rightarrow> 'env \<Rightarrow> 'env"
  config_stop_err :: "nat \<Rightarrow> string option"
  machines_stop_err :: "nat \<Rightarrow> string option"

text \<open>
  Where the goroutine stands between two iterations: \<open>Idle\<close> at the head of the
  \<^verbatim>\<open>for\<close> of \<^verbatim>\<open>loop\<close>, \<open>Active\<close> at the head of the \<^verbatim>\<open>for\<close> of \<^verbatim>\<open>innerLoop\<close>
  (called from \<^verbatim>\<open>loop\<close>), \<open>Exited\<close> once \<^verbatim>\<open>loop\<close> has returned and its deferred
  \<^verbatim>\<open>tomb.Done()\<close> has run, \<open>Panicked\<close> after a nil dereference.
\<close>

datatype location = Idle | Active | Exited | Panicked

text \<open>The calls that leave the goroutine, recorded in order.\<close>

datatype extern_call =
    CallNewEnviron attrs
  | CallNewConfig attrs
  | CallSetConfig
  | CallProcessMachines MachinesChange

text \<open>
  The struct \<^verbatim>\<open>Provisioner\<close>: the handle \<^verbatim>\<open>environ\<close> (nil or an environment), the two
  embedded holders, and the world behind the pointer \<^verbatim>\<open>st\<close>. \<open>at\<close> is the place of the
  goroutine and \<open>calls\<close> the record of its calls; neither is a field of the struct.
\<close>

record 'env Provisioner =
  world :: World
  environ :: "'env option"
  environment :: environment
  machines :: machines
  at :: location
  calls :: "extern_call list"

text \<open>\<^verbatim>\<open>NewProvisioner\<close>: no handle, no watcher, and the goroutine started in \<^verbatim>\<open>loop\<close>.\<close>

definition NewProvisioner :: "State \<Rightarrow> 'env Provisioner" where
  "NewProvisioner st =
     \<lparr>world = \<lparr>store = st, logged = []\<rparr>, environ = None,
      environment = \<lparr>e_watcher = None\<rparr>, machines = \<lparr>m_watcher = None\<rparr>,
      at = Idle, calls = []\<rparr>"

text \<open>The methods of the embedded holders, called on the provisioner.\<close>

definition p_environment_changes :: "'env Provisioner \<Rightarrow> ConfigChan \<times> 'env Provisioner" where
  "p_environment_changes p =
     (let (c, w', e') = environment_changes (world p) (environment p)
      in (c, p\<lparr>world := w', environment := e'\<rparr>))"

definition p_environment_invalidate :: "('env, 'cfg) externs \<Rightarrow> 'env Provisioner \<Rightarrow> 'env Provisioner" where
  "p_environment_invalidate X p =
     (let (w', e') = environment_invalidate (config_stop_err X) (world p) (environment p)
      in p\<lparr>world := w', environment := e'\<rparr>)"

definition p_machines_changes :: "'env Provisioner \<Rightarrow> MachinesChan \<times> 'env Provisioner" where
  "p_machines_changes p =
     (let (c, w', m') = machines_changes (world p) (machines p)
      in (c, p\<lparr>world := w', machines := m'\<rparr>))"

definition p_machines_invalidate :: "('env, 'cfg) externs \<Rightarrow> 'env Provisioner \<Rightarrow> 'env Provisioner" where
  "p_machines_invalidate X p =
     (let (w', m') = machines_invalidate (machines_stop_err X) (world p) (machines p)
      in p\<lparr>world := w', machines := m'\<rparr>)"

definition log_Printf :: "logline \<Rightarrow> 'env Provisioner \<Rightarrow> 'env Provisioner" where
  "log_Printf l p = p\<lparr>world := (world p)\<lparr>logged := logged (world p) @ [l]\<rparr>\<rparr>"

definition record_call :: "extern_call \<Rightarrow> 'env Provisioner \<Rightarrow> 'env Provisioner" where
  "record_call c p = p\<lparr>calls := calls p @ [c]\<rparr>"

text \<open>\<^verbatim>\<open>processMachines\<close> has an empty body: only the call is recorded.\<close>

definition processMachines :: "MachinesChange \<Rightarrow> 'env Provisioner \<Rightarrow> 'env Provisioner" where
  "processMachines changes p = record_call (CallProcessMachines changes) p"

text \<open>
  What a \<^verbatim>\<open>select\<close> yields: the case that was chosen, with the value received.
  \<open>RecvDying\<close> is a receive on \<^verbatim>\<open>tomb.Dying()\<close>; \<open>RecvConfig\<close> and \<open>RecvMachines\<close> are
  receives on the two change channels, \<open>None\<close> when the channel is closed
  (\<^verbatim>\<open>ok\<close> is false) and \<open>Some v\<close> when \<open>v\<close> is delivered. When several cases are
  ready Go chooses one of them at random, so the choice is an input of the model.
\<close>

datatype event =
    RecvDying
  | RecvConfig "ConfigNode option"
  | RecvMachines "MachinesChange option"

text \<open>
  One iteration of the \<^verbatim>\<open>for\<close> of \<^verbatim>\<open>loop\<close>. Go evaluates the channel operands of
  all the cases on entering the \<^verbatim>\<open>select\<close>, so \<^verbatim>\<open>environment.changes()\<close> runs first,
  whichever case is chosen. The \<^verbatim>\<open>select\<close> has no case for the machines channel:
  there the result is \<open>None\<close>, no such iteration exists. The assignment
  \<^verbatim>\<open>p.environ, err = environs.NewEnviron(...)\<close> stores what \<^verbatim>\<open>NewEnviron\<close> returns also
  when it fails: the nil handle that comes with the error.
\<close>

definition loop_iteration :: "('env, 'cfg) externs \<Rightarrow> event \<Rightarrow> 'env Provisioner \<Rightarrow> 'env Provisioner option" where
  "loop_iteration X ev p =
     (let p1 = snd (p_environment_changes p) in
      case ev of
        RecvDying \<Rightarrow> Some (p1\<lparr>at := Exited\<rparr>)
      | RecvConfig None \<Rightarrow> Some (p_environment_invalidate X p1)
      | RecvConfig (Some config) \<Rightarrow>
          (let p2 = record_call (CallNewEnviron (Map config)) p1 in
           case NewEnviron X (Map config) of
             Inl err \<Rightarrow> Some (log_Printf (UnableToCreateEnvironment err) (p2\<lparr>environ := None\<rparr>))
           | Inr env \<Rightarrow>
               Some ((log_Printf ValidEnvironmentConfigured (p2\<lparr>environ := Some env\<rparr>))\<lparr>at := Active\<rparr>))
      | RecvMachines m \<Rightarrow> None)"

text \<open>
  One iteration of the \<^verbatim>\<open>for\<close> of \<^verbatim>\<open>innerLoop\<close>. Both \<^verbatim>\<open>changes()\<close> run on
  entering the \<^verbatim>\<open>select\<close>. On \<open>RecvDying\<close> the function returns to its caller
  \<^verbatim>\<open>loop\<close>, whose \<^verbatim>\<open>for\<close> goes on with its next iteration: the goroutine is at
  \<open>Idle\<close>, and \<^verbatim>\<open>p.environ\<close> is as it was.
\<close>

definition innerLoop_iteration :: "('env, 'cfg) externs \<Rightarrow> event \<Rightarrow> 'env Provisioner \<Rightarrow> 'env Provisioner option" where
  "innerLoop_iteration X ev p =
     (let p1 = snd (p_environment_changes p);
          p2 = snd (p_machines_changes p1) in
      case ev of
        RecvDying \<Rightarrow> Some (p2\<lparr>at := Idle\<rparr>)
      | RecvConfig None \<Rightarrow> Some (p_environment_invalidate X p2)
      | RecvConfig (Some change) \<Rightarrow>
          (let p3 = record_call (CallNewConfig (Map change)) p2 in
           case NewConfig X (Map change) of
             Inl err \<Rightarrow> Some (log_Printf (ConfigurationNotValid err) p3)
           | Inr config \<Rightarrow>
               (case environ p3 of
                  None \<Rightarrow> Some (p3\<lparr>at := Panicked\<rparr>)
                | Some env \<Rightarrow>
                    Some (log_Printf NewConfigurationApplied
                           (record_call CallSetConfig (p3\<lparr>environ := Some (SetConfig X config env)\<rparr>)))))
      | RecvMachines None \<Rightarrow> Some (p_machines_invalidate X p2)
      | RecvMachines (Some ms) \<Rightarrow> Some (processMachines ms p2))"

text \<open>One iteration of the goroutine, wherever it stands; none once it has ended.\<close>

definition iteration :: "('env, 'cfg) externs \<Rightarrow> event \<Rightarrow> 'env Provisioner \<Rightarrow> 'env Provisioner option" where
  "iteration X ev p =
     (case at p of
        Idle \<Rightarrow> loop_iteration X ev p
      | Active \<Rightarrow> innerLoop_iteration X ev p
      | Exited \<Rightarrow> None
      | Panicked \<Rightarrow> None)"

text \<open>
  A run of the goroutine on a finite sequence of \<^verbatim>\<open>select\<close> outcomes; at the end of
  the sequence the goroutine is blocked in its next \<^verbatim>\<open>select\<close>.
\<close>

fun run :: "('env, 'cfg) externs \<Rightarrow> event list \<Rightarrow> 'env Provisioner \<Rightarrow> 'env Provisioner option" where
  "run X [] p = Some p"
| "run X (ev # evs) p =
     (case iteration X ev p of None \<Rightarrow> None | Some p' \<Rightarrow> run X evs p')"

text \<open>Counts over the record of calls: constructions attempted, configurations applied.\<close>

definition constructions :: "'env Provisioner \<Rightarrow> nat" where
  "constructions p = length (filter (\<lambda>c. case c of CallNewEnviron a \<Rightarrow> True | _ \<Rightarrow> False) (calls p))"

definition applications :: "'env Provisioner \<Rightarrow> nat" where
  "applications p = length (filter (\<lambda>c. c = CallSetConfig) (calls p))"

text \<open>
  The invariant of a holder and its store: only opened watches are stopped, and the live
  watches are the one the holder keeps, if it keeps one.
\<close>

definition environment_inv :: "World \<times> environment \<Rightarrow> bool" where
  "environment_inv we =
     (case we of (w, e) \<Rightarrow>
        set (config_stopped (store w)) \<subseteq> {0 ..< config_opened (store w)}
        \<and> set (config_live (store w)) = set_option (e_watcher e))"

definition machines_inv :: "World \<times> machines \<Rightarrow> bool" where
  "machines_inv wm =
     (case wm of (w, m) \<Rightarrow>
        set (machines_stopped (store w)) \<subseteq> {0 ..< machines_opened (store w)}
        \<and> set (machines_live (store w)) = set_option (m_watcher m))"

text \<open>Concrete stores and errors, to run the definitions on.\<close>

definition fresh_store :: State where
  "fresh_store = \<lparr>config_opened = 0, config_stopped = [], machines_opened = 0, machines_stopped = []\<rparr>"

definition stop_fails :: "nat \<Rightarrow> string option" where
  "stop_fails i = Some ''watcher is dying''"

text \<open>
  The successful constructions among the recorded calls, and the number of iterations of
  a run that start at \<open>Idle\<close> and end at \<open>Active\<close>.
\<close>

definition successes :: "('env, 'cfg) externs \<Rightarrow> 'env Provisioner \<Rightarrow> nat" where
  "successes X p =
     length (filter (\<lambda>c. case c of CallNewEnviron a \<Rightarrow> \<not> isl (NewEnviron X a) | _ \<Rightarrow> False)
               (calls p))"

fun activations :: "('env, 'cfg) externs \<Rightarrow> event list \<Rightarrow> 'env Provisioner \<Rightarrow> nat" where
  "activations X [] p = 0"
| "activations X (ev # evs) p =
     (case iteration X ev p of
        None \<Rightarrow> 0
      | Some p' \<Rightarrow> (if at p = Idle \<and> at p' = Active then 1 else 0) + activations X evs p')"

text \<open>The handles that the provisioner holds: the content of its one field.\<close>

definition handles :: "'env Provisioner \<Rightarrow> 'env list" where
  "handles p = (case environ p of None \<Rightarrow> [] | Some env \<Rightarrow> [env])"

definition handle_inv :: "'env Provisioner \<Rightarrow> bool" where
  "handle_inv p = ((at p = Idle \<and> environ p = None) \<or> (at p = Active \<and> environ p \<noteq> None))"

text \<open>
  A concrete instance to run the goroutine on: a provider that accepts the attributes
  with type "dummy", builds a handle that holds its attributes, and replaces them on
  \<^verbatim>\<open>SetConfig\<close>; and three snapshots.
\<close>

datatype DummyEnviron = DummyEnviron attrs

definition dummy_externs :: "(DummyEnviron, attrs) externs" where
  "dummy_externs =
     \<lparr>NewEnviron = (\<lambda>a. if map_of a ''type'' = Some ''dummy'' then Inr (DummyEnviron a)
                          else Inl ''no registered provider''),
      NewConfig = (\<lambda>a. if map_of a ''type'' = Some ''dummy'' then Inr a
                         else Inl ''invalid configuration''),
      SetConfig = (\<lambda>c env. DummyEnviron c),
      config_stop_err = (\<lambda>i. None),
      machines_stop_err = stop_fails\<rparr>"

definition dummy_config :: ConfigNode where
  "dummy_config = ConfigNode [(''type'', ''dummy'')]"

definition dummy_config_extra :: ConfigNode where
  "dummy_config_extra = ConfigNode [(''type'', ''dummy''), (''extra'', ''x'')]"

definition bad_config :: ConfigNode where
  "bad_config = ConfigNode [(''type'', ''unknown'')]"

text \<open>What is observed of a provisioner: its place, its handle and its calls.\<close>

definition observe :: "'env Provisioner \<Rightarrow> location \<times> 'env option \<times> extern_call list" where
  "observe p = (at p, environ p, calls p)"

text \<open>
  What is observed of its store and log: the configuration watches stopped, those still
  live, and the lines logged.
\<close>

definition observe_watches :: "'env Provisioner \<Rightarrow> nat list \<times> nat list \<times> logline list" where
  "observe_watches p =
     (config_stopped (store (world p)), config_live (store (world p)), logged (world p))"

section \<open>Properties of the classification predicates\<close>

lemma is_ErrCharmAlreadyUploaded_iff:
  "is_ErrCharmAlreadyUploaded v = (\<exists>curl. v = ErrCharmAlreadyUploaded curl)"
  by (cases v) simp_all

lemma is_ErrProviderIDNotUnique_iff:
  "is_ErrProviderIDNotUnique v = (\<exists>ids. v = ErrProviderIDNotUnique ids)"
  by (cases v) simp_all

lemma is_ErrParentDeviceHasChildren_iff:
  "is_ErrParentDeviceHasChildren v = (\<exists>parentName numChildren. v = ErrParentDeviceHasChildren parentName numChildren)"
  by (cases v) simp_all

lemma classified_by_cause:
  "(IsCharmAlreadyUploadedError cause (ErrorValue e) = Inr True) =
     (\<exists>curl. (case cause e of None \<Rightarrow> e | Some c \<Rightarrow> c) = ErrCharmAlreadyUploaded curl)"
  "(IsCharmAlreadyUploadedError cause (ErrorValue e) = Inr False) =
     (\<forall>curl. (case cause e of None \<Rightarrow> e | Some c \<Rightarrow> c) \<noteq> ErrCharmAlreadyUploaded curl)"
  "(IsProviderIDNotUniqueError cause (ErrorValue e) = Inr True) =
     (\<exists>ids. (case cause e of None \<Rightarrow> e | Some c \<Rightarrow> c) = ErrProviderIDNotUnique ids)"
  "(IsProviderIDNotUniqueError cause (ErrorValue e) = Inr False) =
     (\<forall>ids. (case cause e of None \<Rightarrow> e | Some c \<Rightarrow> c) \<noteq> ErrProviderIDNotUnique ids)"
  "(IsParentDeviceHasChildrenError cause (ErrorValue e) = Inr True) =
     (\<exists>parentName numChildren.
        (case cause e of None \<Rightarrow> e | Some c \<Rightarrow> c) = ErrParentDeviceHasChildren parentName numChildren)"
  "(IsParentDeviceHasChildrenError cause (ErrorValue e) = Inr False) =
     (\<forall>parentName numChildren.
        (case cause e of None \<Rightarrow> e | Some c \<Rightarrow> c) \<noteq> ErrParentDeviceHasChildren parentName numChildren)"
  by (simp_all add: is_ErrCharmAlreadyUploaded_iff is_ErrProviderIDNotUnique_iff
        is_ErrParentDeviceHasChildren_iff)

text \<open>
  C10. For each of the three predicates: a nil input gives false; an input whose dynamic
  type does not implement \<^verbatim>\<open>error\<close> panics in the unchecked assertion instead of giving
  false; an error never panics and is classified by its cause when it has one (and by
  itself when the cause is nil): the answer is true exactly when that value is an error
  of the type the predicate names, and false exactly when it is not. So, with the cause
  function of the library, each of the three errors is recognised by its own predicate,
  bare or wrapped, and by neither of the two others; a plain error, a wrapper without a
  cause and a wrapper around a plain error are recognised by none.
\<close>

theorem classification_predicates:
  "IsCharmAlreadyUploadedError cause Nil = Inr False
   \<and> IsProviderIDNotUniqueError cause Nil = Inr False
   \<and> IsParentDeviceHasChildrenError cause Nil = Inr False
   \<and> IsCharmAlreadyUploadedError cause (OtherValue d) = Inl TypeAssertionPanic
   \<and> IsProviderIDNotUniqueError cause (OtherValue d) = Inl TypeAssertionPanic
   \<and> IsParentDeviceHasChildrenError cause (OtherValue d) = Inl TypeAssertionPanic
   \<and> IsCharmAlreadyUploadedError cause (ErrorValue e) =
        Inr (is_ErrCharmAlreadyUploaded (case cause e of None \<Rightarrow> e | Some c \<Rightarrow> c))
   \<and> IsProviderIDNotUniqueError cause (ErrorValue e) =
        Inr (is_ErrProviderIDNotUnique (case cause e of None \<Rightarrow> e | Some c \<Rightarrow> c))
   \<and> IsParentDeviceHasChildrenError cause (ErrorValue e) =
        Inr (is_ErrParentDeviceHasChildren (case cause e of None \<Rightarrow> e | Some c \<Rightarrow> c))
   \<and> IsCharmAlreadyUploadedError Cause (ErrorValue (ErrWrapped (Some w) msg)) =
        Inr (is_ErrCharmAlreadyUploaded w)
   \<and> IsProviderIDNotUniqueError Cause (ErrorValue (ErrWrapped (Some w) msg)) =
        Inr (is_ErrProviderIDNotUnique w)
   \<and> IsParentDeviceHasChildrenError Cause (ErrorValue (ErrWrapped (Some w) msg)) =
        Inr (is_ErrParentDeviceHasChildren w)
   \<and> (IsCharmAlreadyUploadedError cause (ErrorValue e) = Inr True) =
        (\<exists>curl. (case cause e of None \<Rightarrow> e | Some c \<Rightarrow> c) = ErrCharmAlreadyUploaded curl)
   \<and> (IsCharmAlreadyUploadedError cause (ErrorValue e) = Inr False) =
        (\<forall>curl. (case cause e of None \<Rightarrow> e | Some c \<Rightarrow> c) \<noteq> ErrCharmAlreadyUploaded curl)
   \<and> (IsProviderIDNotUniqueError cause (ErrorValue e) = Inr True) =
        (\<exists>ids. (case cause e of None \<Rightarrow> e | Some c \<Rightarrow> c) = ErrProviderIDNotUnique ids)
   \<and> (IsProviderIDNotUniqueError cause (ErrorValue e) = Inr False) =
        (\<forall>ids. (case cause e of None \<Rightarrow> e | Some c \<Rightarrow> c) \<noteq> ErrProviderIDNotUnique ids)
   \<and> (IsParentDeviceHasChildrenError cause (ErrorValue e) = Inr True) =
        (\<exists>parentName numChildren.
           (case cause e of None \<Rightarrow> e | Some c \<Rightarrow> c) = ErrParentDeviceHasChildren parentName numChildren)
   \<and> (IsParentDeviceHasChildrenError cause (ErrorValue e) = Inr False) =
        (\<forall>parentName numChildren.
           (case cause e of None \<Rightarrow> e | Some c \<Rightarrow> c) \<noteq> ErrParentDeviceHasChildren parentName numChildren)
   \<and> IsCharmAlreadyUploadedError Cause (ErrorValue (ErrCharmAlreadyUploaded curl)) = Inr True
   \<and> IsCharmAlreadyUploadedError Cause
        (ErrorValue (ErrWrapped (Some (ErrCharmAlreadyUploaded curl)) msg)) = Inr True
   \<and> IsCharmAlreadyUploadedError Cause (ErrorValue (ErrProviderIDNotUnique ids)) = Inr False
   \<and> IsCharmAlreadyUploadedError Cause (ErrorValue (ErrParentDeviceHasChildren parentName numChildren)) = Inr False
   \<and> IsCharmAlreadyUploadedError Cause
        (ErrorValue (ErrWrapped (Some (ErrProviderIDNotUnique ids)) msg)) = Inr False
   \<and> IsCharmAlreadyUploadedError Cause (ErrorValue (ErrPlain msg)) = Inr False
   \<and> IsCharmAlreadyUploadedError Cause (ErrorValue (ErrWrapped None msg)) = Inr False
   \<and> IsCharmAlreadyUploadedError Cause (ErrorValue (ErrWrapped (Some (ErrPlain msg')) msg)) = Inr False
   \<and> IsProviderIDNotUniqueError Cause (ErrorValue (ErrProviderIDNotUnique ids)) = Inr True
   \<and> IsProviderIDNotUniqueError Cause
        (ErrorValue (ErrWrapped (Some (ErrProviderIDNotUnique ids)) msg)) = Inr True
   \<and> IsProviderIDNotUniqueError Cause (ErrorValue (ErrCharmAlreadyUploaded curl)) = Inr False
   \<and> IsProviderIDNotUniqueError Cause (ErrorValue (ErrParentDeviceHasChildren parentName numChildren)) = Inr False
   \<and> IsProviderIDNotUniqueError Cause
        (ErrorValue (ErrWrapped (Some (ErrParentDeviceHasChildren parentName numChildren)) msg)) = Inr False
   \<and> IsProviderIDNotUniqueError Cause (ErrorValue (ErrPlain msg)) = Inr False
   \<and> IsProviderIDNotUniqueError Cause (ErrorValue (ErrWrapped None msg)) = Inr False
   \<and> IsProviderIDNotUniqueError Cause (ErrorValue (ErrWrapped (Some (ErrPlain msg')) msg)) = Inr False
   \<and> IsParentDeviceHasChildrenError Cause
        (ErrorValue (ErrParentDeviceHasChildren parentName numChildren)) = Inr True
   \<and> IsParentDeviceHasChildrenError Cause
        (ErrorValue (ErrWrapped (Some (ErrParentDeviceHasChildren parentName numChildren)) msg)) = Inr True
   \<and> IsParentDeviceHasChildrenError Cause (ErrorValue (ErrCharmAlreadyUploaded curl)) = Inr False
   \<and> IsParentDeviceHasChildrenError Cause (ErrorValue (ErrProviderIDNotUnique ids)) = Inr False
   \<and> IsParentDeviceHasChildrenError Cause
        (ErrorValue (ErrWrapped (Some (ErrCharmAlreadyUploaded curl)) msg)) = Inr False
   \<and> IsParentDeviceHasChildrenError Cause (ErrorValue (ErrPlain msg)) = Inr False
   \<and> IsParentDeviceHasChildrenError Cause (ErrorValue (ErrWrapped None msg)) = Inr False
   \<and> IsParentDeviceHasChildrenError Cause (ErrorValue (ErrWrapped (Some (ErrPlain msg')) msg)) = Inr False"
proof -
  have general:
    "IsCharmAlreadyUploadedError cause Nil = Inr False"
    "IsProviderIDNotUniqueError cause Nil = Inr False"
    "IsParentDeviceHasChildrenError cause Nil = Inr False"
    "IsCharmAlreadyUploadedError cause (OtherValue d) = Inl TypeAssertionPanic"
    "IsProviderIDNotUniqueError cause (OtherValue d) = Inl TypeAssertionPanic"
    "IsParentDeviceHasChildrenError cause (OtherValue d) = Inl TypeAssertionPanic"
    "IsCharmAlreadyUploadedError cause (ErrorValue e) =
        Inr (is_ErrCharmAlreadyUploaded (case cause e of None \<Rightarrow> e | Some c \<Rightarrow> c))"
    "IsProviderIDNotUniqueError cause (ErrorValue e) =
        Inr (is_ErrProviderIDNotUnique (case cause e of None \<Rightarrow> e | Some c \<Rightarrow> c))"
    "IsParentDeviceHasChildrenError cause (ErrorValue e) =
        Inr (is_ErrParentDeviceHasChildren (case cause e of None \<Rightarrow> e | Some c \<Rightarrow> c))"
    by simp_all
  have wrapped:
    "IsCharmAlreadyUploadedError Cause (ErrorValue (ErrWrapped (Some w) msg)) =
        Inr (is_ErrCharmAlreadyUploaded w)"
    "IsProviderIDNotUniqueError Cause (ErrorValue (ErrWrapped (Some w) msg)) =
        Inr (is_ErrProviderIDNotUnique w)"
    "IsParentDeviceHasChildrenError Cause (ErrorValue (ErrWrapped (Some w) msg)) =
        Inr (is_ErrParentDeviceHasChildren w)"
    by simp_all
  have charm:
    "IsCharmAlreadyUploadedError Cause (ErrorValue (ErrCharmAlreadyUploaded curl)) = Inr True"
    "IsCharmAlreadyUploadedError Cause
        (ErrorValue (ErrWrapped (Some (ErrCharmAlreadyUploaded curl)) msg)) = Inr True"
    "IsCharmAlreadyUploadedError Cause (ErrorValue (ErrProviderIDNotUnique ids)) = Inr False"
    "IsCharmAlreadyUploadedError Cause (ErrorValue (ErrParentDeviceHasChildren parentName numChildren)) = Inr False"
    "IsCharmAlreadyUploadedError Cause
        (ErrorValue (ErrWrapped (Some (ErrProviderIDNotUnique ids)) msg)) = Inr False"
    "IsCharmAlreadyUploadedError Cause (ErrorValue (ErrPlain msg)) = Inr False"
    "IsCharmAlreadyUploadedError Cause (ErrorValue (ErrWrapped None msg)) = Inr False"
    "IsCharmAlreadyUploadedError Cause (ErrorValue (ErrWrapped (Some (ErrPlain msg')) msg)) = Inr False"
    by simp_all
  have provider:
    "IsProviderIDNotUniqueError Cause (ErrorValue (ErrProviderIDNotUnique ids)) = Inr True"
    "IsProviderIDNotUniqueError Cause
        (ErrorValue (ErrWrapped (Some (ErrProviderIDNotUnique ids)) msg)) = Inr True"
    "IsProviderIDNotUniqueError Cause (ErrorValue (ErrCharmAlreadyUploaded curl)) = Inr False"
    "IsProviderIDNotUniqueError Cause (ErrorValue (ErrParentDeviceHasChildren parentName numChildren)) = Inr False"
    "IsProviderIDNotUniqueError Cause
        (ErrorValue (ErrWrapped (Some (ErrParentDeviceHasChildren parentName numChildren)) msg)) = Inr False"
    "IsProviderIDNotUniqueError Cause (ErrorValue (ErrPlain msg)) = Inr False"
    "IsProviderIDNotUniqueError Cause (ErrorValue (ErrWrapped None msg)) = Inr False"
    "IsProviderIDNotUniqueError Cause (ErrorValue (ErrWrapped (Some (ErrPlain msg')) msg)) = Inr False"
    by simp_all
  have parent:
    "IsParentDeviceHasChildrenError Cause
        (ErrorValue (ErrParentDeviceHasChildren parentName numChildren)) = Inr True"
    "IsParentDeviceHasChildrenError Cause
        (ErrorValue (ErrWrapped (Some (ErrParentDeviceHasChildren parentName numChildren)) msg)) = Inr True"
    "IsParentDeviceHasChildrenError Cause (ErrorValue (ErrCharmAlreadyUploaded curl)) = Inr False"
    "IsParentDeviceHasChildrenError Cause (ErrorValue (ErrProviderIDNotUnique ids)) = Inr False"
    "IsParentDeviceHasChildrenError Cause
        (ErrorValue (ErrWrapped (Some (ErrCharmAlreadyUploaded curl)) msg)) = Inr False"
    "IsParentDeviceHasChildrenError Cause (ErrorValue (ErrPlain msg)) = Inr False"
    "IsParentDeviceHasChildrenError Cause (ErrorValue (ErrWrapped None msg)) = Inr False"
    "IsParentDeviceHasChildrenError Cause (ErrorValue (ErrWrapped (Some (ErrPlain msg')) msg)) = Inr False"
    by simp_all
  show ?thesis
    by (intro conjI general wrapped charm provider parent classified_by_cause)
qed

text \<open>
  The theorem at concrete values: an annotated "already uploaded" error, a string that
  is not an error, and the library's cause function.
\<close>

theorem classification_predicates_witness:
  "IsCharmAlreadyUploadedError Cause Nil = Inr False
   \<and> IsCharmAlreadyUploadedError Cause (OtherValue ''boom'') = Inl TypeAssertionPanic
   \<and> IsCharmAlreadyUploadedError Cause
        (ErrorValue (ErrWrapped (Some (ErrCharmAlreadyUploaded ''cs:trusty/wordpress-1'')) ''cannot update''))
      = Inr True
   \<and> IsProviderIDNotUniqueError Cause
        (ErrorValue (ErrWrapped (Some (ErrCharmAlreadyUploaded ''cs:trusty/wordpress-1'')) ''cannot update''))
      = Inr False
   \<and> IsParentDeviceHasChildrenError Cause
        (ErrorValue (ErrWrapped (Some (ErrCharmAlreadyUploaded ''cs:trusty/wordpress-1'')) ''cannot update''))
      = Inr False
   \<and> IsProviderIDNotUniqueError Cause (ErrorValue (ErrProviderIDNotUnique [''a'', ''b''])) = Inr True
   \<and> IsParentDeviceHasChildrenError Cause (ErrorValue (ErrParentDeviceHasChildren ''eth0'' 2)) = Inr True
   \<and> IsParentDeviceHasChildrenError Cause (ErrorValue (ErrPlain ''not found or dead'')) = Inr False"
  using classification_predicates [of Cause "''boom''"
      "ErrWrapped (Some (ErrCharmAlreadyUploaded ''cs:trusty/wordpress-1'')) ''cannot update''"
      "ErrCharmAlreadyUploaded ''cs:trusty/wordpress-1''" "''cannot update''"
      "''cs:trusty/wordpress-1''" "[''a'', ''b'']" "''eth0''" 2 "''not found or dead''"]
  by simp

section \<open>Properties of the watcher holders\<close>

lemma distinct_config_live: "distinct (config_live st)"
  by (simp add: config_live_def)

lemma distinct_machines_live: "distinct (machines_live st)"
  by (simp add: machines_live_def)

lemma environment_inv_call:
  "environment_inv we \<Longrightarrow> environment_inv (environment_call stop_err c we)"
  by (cases we; cases c)
     (auto simp: environment_inv_def environment_changes_def environment_invalidate_def
        WatchEnvironConfig_def ConfigWatcher_Stop_def ConfigWatcher_Changes_def config_live_def
        less_Suc_eq split: option.splits)

lemma machines_inv_call:
  "machines_inv wm \<Longrightarrow> machines_inv (machines_call stop_err c wm)"
  by (cases wm; cases c)
     (auto simp: machines_inv_def machines_changes_def machines_invalidate_def
        WatchMachines_def MachinesWatcher_Stop_def MachinesWatcher_Changes_def machines_live_def
        less_Suc_eq split: option.splits)

lemma environment_inv_fold:
  "environment_inv we \<Longrightarrow> environment_inv (fold (environment_call stop_err) cs we)"
  by (induction cs arbitrary: we) (simp_all add: environment_inv_call)

lemma machines_inv_fold:
  "machines_inv wm \<Longrightarrow> machines_inv (fold (machines_call stop_err) cs wm)"
  by (induction cs arbitrary: wm) (simp_all add: machines_inv_call)

lemma environment_live_history:
  "set (config_live (store (fst (environment_history stop_err cs))))
     = set_option (e_watcher (snd (environment_history stop_err cs)))"
proof -
  have "environment_inv (new_world, \<lparr>e_watcher = None\<rparr>)"
    by (simp add: environment_inv_def new_world_def config_live_def)
  then have "environment_inv (environment_history stop_err cs)"
    unfolding environment_history_def by (rule environment_inv_fold)
  then show ?thesis
    by (simp add: environment_inv_def split: prod.splits)
qed

lemma machines_live_history:
  "set (machines_live (store (fst (machines_history stop_err cs))))
     = set_option (m_watcher (snd (machines_history stop_err cs)))"
proof -
  have "machines_inv (new_world, \<lparr>m_watcher = None\<rparr>)"
    by (simp add: machines_inv_def new_world_def machines_live_def)
  then have "machines_inv (machines_history stop_err cs)"
    unfolding machines_history_def by (rule machines_inv_fold)
  then show ?thesis
    by (simp add: machines_inv_def split: prod.splits)
qed

lemma length_le_one_option:
  assumes "distinct xs" and "set xs = set_option x"
  shows "length xs \<le> 1"
proof -
  have "length xs = card (set xs)" using assms(1) by (simp add: distinct_card)
  also have "\<dots> \<le> 1" unfolding assms(2) by (cases x) simp_all
  finally show ?thesis .
qed

lemma environment_changes_unsubscribed:
  "e_watcher e = None \<Longrightarrow>
     environment_changes w e =
       (ConfigChan (config_opened (store w)),
        w\<lparr>store := (store w)\<lparr>config_opened := Suc (config_opened (store w))\<rparr>\<rparr>,
        e\<lparr>e_watcher := Some (config_opened (store w))\<rparr>)"
  by (simp add: environment_changes_def WatchEnvironConfig_def ConfigWatcher_Changes_def)

lemma environment_changes_subscribed:
  "e_watcher e = Some i \<Longrightarrow> environment_changes w e = (ConfigChan i, w, e)"
  by (simp add: environment_changes_def ConfigWatcher_Changes_def)

lemma environment_changes_twice:
  "environment_changes w e = (c, w', e') \<Longrightarrow>
     e_watcher e' \<noteq> None \<and> environment_changes w' e' = (c, w', e')"
  by (cases "e_watcher e")
     (auto simp: environment_changes_unsubscribed environment_changes_subscribed)

lemma machines_changes_unsubscribed:
  "m_watcher m = None \<Longrightarrow>
     machines_changes w m =
       (MachinesChan (machines_opened (store w)),
        w\<lparr>store := (store w)\<lparr>machines_opened := Suc (machines_opened (store w))\<rparr>\<rparr>,
        m\<lparr>m_watcher := Some (machines_opened (store w))\<rparr>)"
  by (simp add: machines_changes_def WatchMachines_def MachinesWatcher_Changes_def)

lemma machines_changes_subscribed:
  "m_watcher m = Some i \<Longrightarrow> machines_changes w m = (MachinesChan i, w, m)"
  by (simp add: machines_changes_def MachinesWatcher_Changes_def)

lemma machines_changes_twice:
  "machines_changes w m = (c, w', m') \<Longrightarrow>
     m_watcher m' \<noteq> None \<and> machines_changes w' m' = (c, w', m')"
  by (cases "m_watcher m")
     (auto simp: machines_changes_unsubscribed machines_changes_subscribed)

text \<open>
  C7. For each of the two holders: \<^verbatim>\<open>changes()\<close> on a holder with no watcher opens
  exactly one watch on the store (the count of opened watches goes up by one), keeps the
  watcher and returns its channel; \<^verbatim>\<open>changes()\<close> on a holder with a watcher returns the
  channel of that watcher and changes neither the holder nor the store; so a second call
  right after a first returns the same channel and opens nothing. After any sequence of
  \<^verbatim>\<open>changes()\<close> and \<^verbatim>\<open>invalidate()\<close> on a new holder, the watches of the store that
  are open and not stopped are the watcher of the holder if it has one, and none
  otherwise: at most one.
\<close>

theorem changes_keeps_one_watch:
  "(e_watcher e = None \<longrightarrow>
       environment_changes w e =
         (ConfigChan (config_opened (store w)),
          w\<lparr>store := (store w)\<lparr>config_opened := Suc (config_opened (store w))\<rparr>\<rparr>,
          e\<lparr>e_watcher := Some (config_opened (store w))\<rparr>))
   \<and> (\<forall>i. e_watcher e = Some i \<longrightarrow> environment_changes w e = (ConfigChan i, w, e))
   \<and> (\<forall>c w' e'. environment_changes w e = (c, w', e') \<longrightarrow>
         e_watcher e' \<noteq> None \<and> environment_changes w' e' = (c, w', e'))
   \<and> set (config_live (store (fst (environment_history stop_err cs))))
        = set_option (e_watcher (snd (environment_history stop_err cs)))
   \<and> length (config_live (store (fst (environment_history stop_err cs)))) \<le> 1
   \<and> (m_watcher m = None \<longrightarrow>
       machines_changes w m =
         (MachinesChan (machines_opened (store w)),
          w\<lparr>store := (store w)\<lparr>machines_opened := Suc (machines_opened (store w))\<rparr>\<rparr>,
          m\<lparr>m_watcher := Some (machines_opened (store w))\<rparr>))
   \<and> (\<forall>i. m_watcher m = Some i \<longrightarrow> machines_changes w m = (MachinesChan i, w, m))
   \<and> (\<forall>c w' m'. machines_changes w m = (c, w', m') \<longrightarrow>
         m_watcher m' \<noteq> None \<and> machines_changes w' m' = (c, w', m'))
   \<and> set (machines_live (store (fst (machines_history stop_err cs))))
        = set_option (m_watcher (snd (machines_history stop_err cs)))
   \<and> length (machines_live (store (fst (machines_history stop_err cs)))) \<le> 1"
proof -
  have e_len: "length (config_live (store (fst (environment_history stop_err cs)))) \<le> 1"
    using distinct_config_live environment_live_history by (rule length_le_one_option)
  have m_len: "length (machines_live (store (fst (machines_history stop_err cs)))) \<le> 1"
    using distinct_machines_live machines_live_history by (rule length_le_one_option)
  show ?thesis
    using e_len m_len environment_live_history [of stop_err cs] machines_live_history [of stop_err cs]
      environment_changes_unsubscribed [of e w] machines_changes_unsubscribed [of m w]
      environment_changes_subscribed [of e _ w] machines_changes_subscribed [of m _ w]
      environment_changes_twice [of w e] machines_changes_twice [of w m]
    by blast
qed

theorem changes_keeps_one_watch_witness:
  "e_watcher \<lparr>e_watcher = None\<rparr> = None
   \<and> environment_changes new_world \<lparr>e_watcher = None\<rparr>
       = (ConfigChan 0, new_world\<lparr>store := (store new_world)\<lparr>config_opened := Suc 0\<rparr>\<rparr>,
          \<lparr>e_watcher = Some 0\<rparr>)
   \<and> m_watcher \<lparr>m_watcher = None\<rparr> = None
   \<and> machines_changes new_world \<lparr>m_watcher = None\<rparr>
       = (MachinesChan 0, new_world\<lparr>store := (store new_world)\<lparr>machines_opened := Suc 0\<rparr>\<rparr>,
          \<lparr>m_watcher = Some 0\<rparr>)
   \<and> length (config_live (store (fst (environment_history stop_fails
        [CallChanges, CallChanges, CallInvalidate, CallChanges])))) \<le> 1"
  using changes_keeps_one_watch [of "\<lparr>e_watcher = None\<rparr>" new_world stop_fails
      "[CallChanges, CallChanges, CallInvalidate, CallChanges]" "\<lparr>m_watcher = None\<rparr>"]
  by (simp add: new_world_def)

lemma environment_invalidate_subscribed:
  "e_watcher e = Some i \<Longrightarrow>
     environment_invalidate stop_err w e =
       (w\<lparr>store := (store w)\<lparr>config_stopped := config_stopped (store w) @ [i]\<rparr>,
          logged := logged w @ [EnvironmentWatcherExited (stop_err i)]\<rparr>,
        e\<lparr>e_watcher := None\<rparr>)"
  by (simp add: environment_invalidate_def ConfigWatcher_Stop_def)

lemma environment_invalidate_unsubscribed:
  "e_watcher e = None \<Longrightarrow> environment_invalidate stop_err w e = (w, e)"
  by (simp add: environment_invalidate_def)

lemma machines_invalidate_subscribed:
  "m_watcher m = Some i \<Longrightarrow>
     machines_invalidate stop_err w m =
       (w\<lparr>store := (store w)\<lparr>machines_stopped := machines_stopped (store w) @ [i]\<rparr>,
          logged := logged w @ [MachinesWatcherExited (stop_err i)]\<rparr>,
        m\<lparr>m_watcher := None\<rparr>)"
  by (simp add: machines_invalidate_def MachinesWatcher_Stop_def)

lemma machines_invalidate_unsubscribed:
  "m_watcher m = None \<Longrightarrow> machines_invalidate stop_err w m = (w, m)"
  by (simp add: machines_invalidate_def)

lemma config_live_stopped:
  "i \<notin> set (config_live (st\<lparr>config_stopped := config_stopped st @ [i]\<rparr>))"
  by (simp add: config_live_def)

lemma machines_live_stopped:
  "i \<notin> set (machines_live (st\<lparr>machines_stopped := machines_stopped st @ [i]\<rparr>))"
  by (simp add: machines_live_def)

text \<open>
  C8. For each of the two holders: \<^verbatim>\<open>invalidate()\<close> on a holder with a watcher stops
  that watcher on the store (it is no longer live), writes one log line with what
  \<^verbatim>\<open>Stop\<close> returned, and leaves the holder without a watcher; whatever error \<^verbatim>\<open>Stop\<close>
  returns, it only appears in that log line (the method returns nothing, and the holder
  and store it leaves do not depend on the error). \<^verbatim>\<open>invalidate()\<close> on a holder without
  a watcher changes nothing: no watch is stopped and nothing is logged.
\<close>

theorem invalidate_releases_and_resets:
  "(\<forall>i. e_watcher e = Some i \<longrightarrow>
        environment_invalidate stop_err w e =
          (w\<lparr>store := (store w)\<lparr>config_stopped := config_stopped (store w) @ [i]\<rparr>,
             logged := logged w @ [EnvironmentWatcherExited (stop_err i)]\<rparr>,
           e\<lparr>e_watcher := None\<rparr>)
        \<and> i \<notin> set (config_live (store (fst (environment_invalidate stop_err w e)))))
   \<and> (e_watcher e = None \<longrightarrow> environment_invalidate stop_err w e = (w, e))
   \<and> e_watcher (snd (environment_invalidate stop_err w e)) = None
   \<and> (\<forall>i. m_watcher m = Some i \<longrightarrow>
        machines_invalidate stop_err w m =
          (w\<lparr>store := (store w)\<lparr>machines_stopped := machines_stopped (store w) @ [i]\<rparr>,
             logged := logged w @ [MachinesWatcherExited (stop_err i)]\<rparr>,
           m\<lparr>m_watcher := None\<rparr>)
        \<and> i \<notin> set (machines_live (store (fst (machines_invalidate stop_err w m)))))
   \<and> (m_watcher m = None \<longrightarrow> machines_invalidate stop_err w m = (w, m))
   \<and> m_watcher (snd (machines_invalidate stop_err w m)) = None"
proof -
  have e_none: "e_watcher (snd (environment_invalidate stop_err w e)) = None"
    by (simp add: environment_invalidate_def ConfigWatcher_Stop_def split: option.splits)
  have m_none: "m_watcher (snd (machines_invalidate stop_err w m)) = None"
    by (simp add: machines_invalidate_def MachinesWatcher_Stop_def split: option.splits)
  have e_some: "e_watcher e = Some i \<Longrightarrow>
      i \<notin> set (config_live (store (fst (environment_invalidate stop_err w e))))" for i
    by (simp add: environment_invalidate_subscribed config_live_stopped)
  have m_some: "m_watcher m = Some i \<Longrightarrow>
      i \<notin> set (machines_live (store (fst (machines_invalidate stop_err w m))))" for i
    by (simp add: machines_invalidate_subscribed machines_live_stopped)
  show ?thesis
    using e_none m_none e_some m_some
      environment_invalidate_subscribed [of e _ stop_err w]
      environment_invalidate_unsubscribed [of e stop_err w]
      machines_invalidate_subscribed [of m _ stop_err w]
      machines_invalidate_unsubscribed [of m stop_err w]
    by blast
qed

theorem invalidate_releases_and_resets_witness:
  "e_watcher \<lparr>e_watcher = Some 0\<rparr> = Some 0
   \<and> environment_invalidate stop_fails
        (new_world\<lparr>store := (store new_world)\<lparr>config_opened := Suc 0\<rparr>\<rparr>) \<lparr>e_watcher = Some 0\<rparr>
       = (\<lparr>store = \<lparr>config_opened = Suc 0, config_stopped = [0], machines_opened = 0,
                       machines_stopped = []\<rparr>,
            logged = [EnvironmentWatcherExited (Some ''watcher is dying'')]\<rparr>,
          \<lparr>e_watcher = None\<rparr>)
   \<and> m_watcher \<lparr>m_watcher = None\<rparr> = None
   \<and> machines_invalidate stop_fails
        (new_world\<lparr>store := (store new_world)\<lparr>config_opened := Suc 0\<rparr>\<rparr>) \<lparr>m_watcher = None\<rparr>
       = (new_world\<lparr>store := (store new_world)\<lparr>config_opened := Suc 0\<rparr>\<rparr>, \<lparr>m_watcher = None\<rparr>)"
  using invalidate_releases_and_resets [of "\<lparr>e_watcher = Some 0\<rparr>" stop_fails
      "new_world\<lparr>store := (store new_world)\<lparr>config_opened := Suc 0\<rparr>\<rparr>" "\<lparr>m_watcher = None\<rparr>"]
  by (simp add: new_world_def stop_fails_def)

section \<open>Properties of the goroutine\<close>

lemma p_environment_changes_frame:
  "at (snd (p_environment_changes p)) = at p"
  "environ (snd (p_environment_changes p)) = environ p"
  "calls (snd (p_environment_changes p)) = calls p"
  "machines (snd (p_environment_changes p)) = machines p"
  "logged (world (snd (p_environment_changes p))) = logged (world p)"
  "\<exists>i. e_watcher (environment (snd (p_environment_changes p))) = Some i"
  "config_stopped (store (world (snd (p_environment_changes p)))) = config_stopped (store (world p))"
  "machines_stopped (store (world (snd (p_environment_changes p)))) = machines_stopped (store (world p))"
  by (simp_all add: p_environment_changes_def environment_changes_def WatchEnvironConfig_def
        split: option.splits prod.splits)

lemma p_machines_changes_frame:
  "at (snd (p_machines_changes p)) = at p"
  "environ (snd (p_machines_changes p)) = environ p"
  "calls (snd (p_machines_changes p)) = calls p"
  "environment (snd (p_machines_changes p)) = environment p"
  "logged (world (snd (p_machines_changes p))) = logged (world p)"
  "\<exists>i. m_watcher (machines (snd (p_machines_changes p))) = Some i"
  "config_stopped (store (world (snd (p_machines_changes p)))) = config_stopped (store (world p))"
  "machines_stopped (store (world (snd (p_machines_changes p)))) = machines_stopped (store (world p))"
  by (simp_all add: p_machines_changes_def machines_changes_def WatchMachines_def
        split: option.splits prod.splits)

lemma p_environment_invalidate_frame:
  "at (p_environment_invalidate X p) = at p"
  "environ (p_environment_invalidate X p) = environ p"
  "calls (p_environment_invalidate X p) = calls p"
  "machines (p_environment_invalidate X p) = machines p"
  "e_watcher (environment (p_environment_invalidate X p)) = None"
  "machines_stopped (store (world (p_environment_invalidate X p))) = machines_stopped (store (world p))"
  by (simp_all add: p_environment_invalidate_def environment_invalidate_def ConfigWatcher_Stop_def
        split: option.splits prod.splits)

lemma p_machines_invalidate_frame:
  "at (p_machines_invalidate X p) = at p"
  "environ (p_machines_invalidate X p) = environ p"
  "calls (p_machines_invalidate X p) = calls p"
  "environment (p_machines_invalidate X p) = environment p"
  "m_watcher (machines (p_machines_invalidate X p)) = None"
  "config_stopped (store (world (p_machines_invalidate X p))) = config_stopped (store (world p))"
  by (simp_all add: p_machines_invalidate_def machines_invalidate_def MachinesWatcher_Stop_def
        split: option.splits prod.splits)

lemma log_Printf_frame:
  "at (log_Printf l p) = at p"
  "environ (log_Printf l p) = environ p"
  "calls (log_Printf l p) = calls p"
  "environment (log_Printf l p) = environment p"
  "machines (log_Printf l p) = machines p"
  "logged (world (log_Printf l p)) = logged (world p) @ [l]"
  "store (world (log_Printf l p)) = store (world p)"
  by (simp_all add: log_Printf_def)

lemma record_call_frame:
  "at (record_call c p) = at p"
  "environ (record_call c p) = environ p"
  "calls (record_call c p) = calls p @ [c]"
  "environment (record_call c p) = environment p"
  "machines (record_call c p) = machines p"
  "world (record_call c p) = world p"
  by (simp_all add: record_call_def)

lemmas frame = p_environment_changes_frame p_machines_changes_frame p_environment_invalidate_frame
  p_machines_invalidate_frame log_Printf_frame record_call_frame

lemmas dummy_defs = dummy_externs_def dummy_config_def dummy_config_extra_def bad_config_def
  fresh_store_def stop_fails_def NewProvisioner_def observe_def

lemmas goroutine_defs = iteration_def loop_iteration_def innerLoop_iteration_def
  p_environment_changes_def p_machines_changes_def p_environment_invalidate_def
  p_machines_invalidate_def environment_changes_def machines_changes_def
  environment_invalidate_def machines_invalidate_def WatchEnvironConfig_def WatchMachines_def
  ConfigWatcher_Changes_def MachinesWatcher_Changes_def ConfigWatcher_Stop_def
  MachinesWatcher_Stop_def log_Printf_def record_call_def processMachines_def Let_def

lemma p_environment_changes_watcher:
  "e_watcher (environment (snd (p_environment_changes p))) =
     Some (case e_watcher (environment p) of Some k \<Rightarrow> k | None \<Rightarrow> config_opened (store (world p)))"
  "config_opened (store (world (snd (p_environment_changes p)))) =
     (case e_watcher (environment p) of
        Some k \<Rightarrow> config_opened (store (world p))
      | None \<Rightarrow> Suc (config_opened (store (world p))))"
  by (simp_all add: p_environment_changes_def environment_changes_def WatchEnvironConfig_def
        split: option.splits)

lemma p_machines_changes_watcher:
  "m_watcher (machines (snd (p_machines_changes p))) =
     Some (case m_watcher (machines p) of Some k \<Rightarrow> k | None \<Rightarrow> machines_opened (store (world p)))"
  "config_opened (store (world (snd (p_machines_changes p)))) = config_opened (store (world p))"
  by (simp_all add: p_machines_changes_def machines_changes_def WatchMachines_def
        split: option.splits)

lemma p_environment_invalidate_effect:
  assumes "e_watcher (environment p) = Some i"
  shows "config_stopped (store (world (p_environment_invalidate X p))) = config_stopped (store (world p)) @ [i]"
    and "config_opened (store (world (p_environment_invalidate X p))) = config_opened (store (world p))"
    and "logged (world (p_environment_invalidate X p)) =
           logged (world p) @ [EnvironmentWatcherExited (config_stop_err X i)]"
  using assms
  by (simp_all add: p_environment_invalidate_def environment_invalidate_def ConfigWatcher_Stop_def)

lemma p_machines_invalidate_effect:
  assumes "m_watcher (machines p) = Some j"
  shows "machines_stopped (store (world (p_machines_invalidate X p))) = machines_stopped (store (world p)) @ [j]"
    and "logged (world (p_machines_invalidate X p)) =
           logged (world p) @ [MachinesWatcherExited (machines_stop_err X j)]"
  using assms
  by (simp_all add: p_machines_invalidate_def machines_invalidate_def MachinesWatcher_Stop_def)

lemma stopped_not_live:
  "config_stopped st = xs @ [i] \<Longrightarrow> i \<notin> set (config_live st)"
  "machines_stopped st = ys @ [j] \<Longrightarrow> j \<notin> set (machines_live st)"
  by (simp_all add: config_live_def machines_live_def)


text \<open>
  C4. When the goroutine is in \<^verbatim>\<open>innerLoop\<close> (\<open>Active\<close>) and the snapshot received
  does not pass \<^verbatim>\<open>NewConfig\<close>, the iteration logs the failure, calls \<^verbatim>\<open>NewConfig\<close> and
  nothing else (\<^verbatim>\<open>SetConfig\<close> is not called), leaves the goroutine in \<open>Active\<close> and
  leaves the handle, with the configuration applied to it, as it was.
\<close>

theorem invalid_snapshot_in_Active:
  assumes "at p = Active" and "NewConfig X (Map change) = Inl err"
  shows "\<exists>p'. iteration X (RecvConfig (Some change)) p = Some p'
           \<and> at p' = Active \<and> environ p' = environ p
           \<and> calls p' = calls p @ [CallNewConfig (Map change)]
           \<and> applications p' = applications p
           \<and> logged (world p') = logged (world p) @ [ConfigurationNotValid err]"
  using assms
  by (simp add: iteration_def innerLoop_iteration_def Let_def frame applications_def)

theorem invalid_snapshot_in_Active_witness:
  "\<exists>p p'. run dummy_externs [RecvConfig (Some dummy_config)] (NewProvisioner fresh_store) = Some p
      \<and> at p = Active
      \<and> NewConfig dummy_externs (Map bad_config) = Inl ''invalid configuration''
      \<and> iteration dummy_externs (RecvConfig (Some bad_config)) p = Some p'
      \<and> at p' = Active
      \<and> environ p' = Some (DummyEnviron [(''type'', ''dummy'')])
      \<and> applications p' = 0
      \<and> logged (world p') = [ValidEnvironmentConfigured, ConfigurationNotValid ''invalid configuration'']"
proof -
  obtain p where p: "run dummy_externs [RecvConfig (Some dummy_config)] (NewProvisioner fresh_store) = Some p"
    and a: "at p = Active" and e: "environ p = Some (DummyEnviron [(''type'', ''dummy'')])"
    and c: "applications p = 0" and l: "logged (world p) = [ValidEnvironmentConfigured]"
    by (simp add: dummy_defs goroutine_defs applications_def)
  have n: "NewConfig dummy_externs (Map bad_config) = Inl ''invalid configuration''"
    by (simp add: dummy_defs)
  from invalid_snapshot_in_Active [OF a n] p a e c l n show ?thesis
    by auto
qed

text \<open>
  C5. When the goroutine is in \<^verbatim>\<open>loop\<close> (\<open>Idle\<close>) and \<^verbatim>\<open>NewEnviron\<close> fails on the
  snapshot received, the iteration logs the failure and the goroutine stays in \<open>Idle\<close>,
  with no handle. So on any sequence of snapshots that all fail, the goroutine makes one
  iteration for each of them and is in \<open>Idle\<close> at the end: it has not returned.
\<close>

theorem construction_failure_in_Idle:
  assumes "at p = Idle"
  shows "(\<forall>config err. NewEnviron X (Map config) = Inl err \<longrightarrow>
            (\<exists>p'. iteration X (RecvConfig (Some config)) p = Some p'
               \<and> at p' = Idle \<and> environ p' = None
               \<and> calls p' = calls p @ [CallNewEnviron (Map config)]
               \<and> logged (world p') = logged (world p) @ [UnableToCreateEnvironment err]))
         \<and> ((\<forall>config \<in> set configs. isl (NewEnviron X (Map config))) \<longrightarrow>
            (\<exists>p'. run X (map (\<lambda>config. RecvConfig (Some config)) configs) p = Some p'
               \<and> at p' = Idle \<and> length (calls p') = length (calls p) + length configs))"
proof -
  have one: "\<exists>p'. iteration X (RecvConfig (Some config)) q = Some p'
               \<and> at p' = Idle \<and> environ p' = None
               \<and> calls p' = calls q @ [CallNewEnviron (Map config)]
               \<and> logged (world p') = logged (world q) @ [UnableToCreateEnvironment err]"
    if "at q = Idle" and "NewEnviron X (Map config) = Inl err" for q config err
    using that by (simp add: iteration_def loop_iteration_def Let_def frame)
  have many: "\<exists>p'. run X (map (\<lambda>config. RecvConfig (Some config)) configs) q = Some p'
               \<and> at p' = Idle \<and> length (calls p') = length (calls q) + length configs"
    if "at q = Idle" and "\<forall>config \<in> set configs. isl (NewEnviron X (Map config))" for q
    using that
  proof (induction configs arbitrary: q)
    case Nil
    then show ?case by simp
  next
    case (Cons config configs)
    from Cons.prems(2) obtain err where err: "NewEnviron X (Map config) = Inl err"
      by (cases "NewEnviron X (Map config)") auto
    from one [OF Cons.prems(1) err] obtain q1 where
      q1: "iteration X (RecvConfig (Some config)) q = Some q1" "at q1 = Idle"
          "calls q1 = calls q @ [CallNewEnviron (Map config)]"
      by blast
    from Cons.IH [OF q1(2)] Cons.prems(2) obtain p' where
      "run X (map (\<lambda>config. RecvConfig (Some config)) configs) q1 = Some p'" "at p' = Idle"
      "length (calls p') = length (calls q1) + length configs"
      by auto
    with q1 show ?case by simp
  qed
  from one [OF assms] many [OF assms] show ?thesis by blast
qed

theorem construction_failure_in_Idle_witness:
  "at (NewProvisioner fresh_store :: DummyEnviron Provisioner) = Idle
   \<and> NewEnviron dummy_externs (Map bad_config) = Inl ''no registered provider''
   \<and> (\<exists>p'. iteration dummy_externs (RecvConfig (Some bad_config)) (NewProvisioner fresh_store) = Some p'
         \<and> at p' = Idle \<and> environ p' = None
         \<and> logged (world p') = [UnableToCreateEnvironment ''no registered provider''])
   \<and> (\<exists>p'. run dummy_externs [RecvConfig (Some bad_config), RecvConfig (Some bad_config)]
              (NewProvisioner fresh_store) = Some p'
         \<and> at p' = Idle \<and> length (calls p') = 2)"
proof -
  have a: "at (NewProvisioner fresh_store :: DummyEnviron Provisioner) = Idle"
    by (simp add: NewProvisioner_def)
  have n: "NewEnviron dummy_externs (Map bad_config) = Inl ''no registered provider''"
    by (simp add: dummy_defs)
  have f: "\<forall>config \<in> set [bad_config, bad_config]. isl (NewEnviron dummy_externs (Map config))"
    by (simp add: n)
  have l: "logged (world (NewProvisioner fresh_store :: DummyEnviron Provisioner)) = []"
    "calls (NewProvisioner fresh_store :: DummyEnviron Provisioner) = []"
    by (simp_all add: NewProvisioner_def)
  from construction_failure_in_Idle [OF a, of dummy_externs "[bad_config, bad_config]"] a n f l
  show ?thesis by (auto simp del: run.simps)
qed

text \<open>
  C6. When the goroutine is in \<^verbatim>\<open>innerLoop\<close> (\<open>Active\<close>) and the machines channel is
  closed, the iteration invalidates the machines holder and nothing else. The machines
  watcher that the \<^verbatim>\<open>select\<close> was reading (the one the holder had, or the one opened on
  entering the \<^verbatim>\<open>select\<close>) is stopped on the store and is no longer live, one line is
  logged with what its \<^verbatim>\<open>Stop\<close> returned, and the holder is left without a watcher. The
  goroutine stays in \<open>Active\<close>, the handle is the same, the environment holder keeps the
  watcher it had on entering the \<^verbatim>\<open>select\<close>, no configuration watch is stopped and
  nothing outside is called.
\<close>

theorem machines_closed_in_Active:
  assumes "at p = Active"
  shows "\<exists>p' j. iteration X (RecvMachines None) p = Some p'
           \<and> at p' = Active \<and> environ p' = environ p \<and> calls p' = calls p
           \<and> m_watcher (machines p') = None
           \<and> (\<exists>i. e_watcher (environment p') = Some i)
           \<and> environment p' = environment (snd (p_environment_changes p))
           \<and> config_stopped (store (world p')) = config_stopped (store (world p))
           \<and> j = (case m_watcher (machines p) of
                     Some k \<Rightarrow> k | None \<Rightarrow> machines_opened (store (world p)))
           \<and> machines_stopped (store (world p')) = machines_stopped (store (world p)) @ [j]
           \<and> j \<notin> set (machines_live (store (world p')))
           \<and> logged (world p') = logged (world p) @ [MachinesWatcherExited (machines_stop_err X j)]"
proof -
  define p1 where "p1 = snd (p_environment_changes p)"
  define p2 where "p2 = snd (p_machines_changes p1)"
  define p' where "p' = p_machines_invalidate X p2"
  define j where "j = (case m_watcher (machines p) of
                         Some k \<Rightarrow> k | None \<Rightarrow> machines_opened (store (world p)))"
  have it: "iteration X (RecvMachines None) p = Some p'"
    using assms by (simp add: iteration_def innerLoop_iteration_def Let_def p'_def p2_def p1_def)
  have m1: "machines p1 = machines p" "machines_opened (store (world p1)) = machines_opened (store (world p))"
    by (simp_all add: p1_def p_environment_changes_def environment_changes_def WatchEnvironConfig_def
          split: option.splits)
  have w2: "m_watcher (machines p2) = Some j"
    by (simp add: p2_def j_def p_machines_changes_watcher m1 split: option.splits)
  have f2: "machines_stopped (store (world p2)) = machines_stopped (store (world p))"
    "logged (world p2) = logged (world p)"
    by (simp_all add: p2_def p1_def frame)
  have stopped: "machines_stopped (store (world p')) = machines_stopped (store (world p)) @ [j]"
    and log: "logged (world p') = logged (world p) @ [MachinesWatcherExited (machines_stop_err X j)]"
    using p_machines_invalidate_effect [OF w2, of X] f2 by (simp_all add: p'_def)
  have dead: "j \<notin> set (machines_live (store (world p')))"
    using stopped by (rule stopped_not_live(2))
  have rest: "at p' = Active" "environ p' = environ p" "calls p' = calls p"
    "m_watcher (machines p') = None" "\<exists>i. e_watcher (environment p') = Some i"
    "environment p' = environment (snd (p_environment_changes p))"
    "config_stopped (store (world p')) = config_stopped (store (world p))"
    using assms by (simp_all add: p'_def p2_def p1_def frame)
  from it rest stopped dead log j_def show ?thesis by blast
qed

theorem machines_closed_in_Active_witness:
  "\<exists>p p'. run dummy_externs [RecvConfig (Some dummy_config)] (NewProvisioner fresh_store) = Some p
      \<and> at p = Active
      \<and> iteration dummy_externs (RecvMachines None) p = Some p'
      \<and> at p' = Active
      \<and> environ p' = Some (DummyEnviron [(''type'', ''dummy'')])
      \<and> m_watcher (machines p') = None
      \<and> e_watcher (environment p') = Some 0
      \<and> config_stopped (store (world p')) = []
      \<and> machines_stopped (store (world p')) = [0]
      \<and> 0 \<notin> set (machines_live (store (world p')))
      \<and> logged (world p') =
          [ValidEnvironmentConfigured, MachinesWatcherExited (Some ''watcher is dying'')]"
proof -
  obtain p where p: "run dummy_externs [RecvConfig (Some dummy_config)] (NewProvisioner fresh_store) = Some p"
    and a: "at p = Active" and e: "environ p = Some (DummyEnviron [(''type'', ''dummy'')])"
    and w: "environment (snd (p_environment_changes p)) = \<lparr>e_watcher = Some 0\<rparr>"
    and s: "config_stopped (store (world p)) = []"
    and m: "m_watcher (machines p) = None" "machines_opened (store (world p)) = 0"
           "machines_stopped (store (world p)) = []"
    and l: "logged (world p) = [ValidEnvironmentConfigured]"
    by (simp add: dummy_defs goroutine_defs)
  have x: "machines_stop_err dummy_externs 0 = Some ''watcher is dying''"
    by (simp add: dummy_defs)
  from machines_closed_in_Active [OF a, of dummy_externs] p a e w s m l x show ?thesis
    by auto
qed

lemma handle_inv_iteration:
  assumes "handle_inv p" and "ev \<noteq> RecvDying" and "iteration X ev p = Some p'"
  shows "handle_inv p'
         \<and> successes X p' = successes X p + (if at p = Idle \<and> at p' = Active then 1 else 0)"
  using assms
  by (auto simp: handle_inv_def iteration_def loop_iteration_def innerLoop_iteration_def Let_def
        frame successes_def processMachines_def
        split: event.splits option.splits sum.splits)

lemma handle_inv_run:
  assumes "handle_inv p" and "RecvDying \<notin> set evs" and "run X evs p = Some p'"
  shows "handle_inv p' \<and> successes X p' = successes X p + activations X evs p"
  using assms
proof (induction evs arbitrary: p)
  case Nil
  then show ?case by simp
next
  case (Cons ev evs)
  from Cons.prems(3) obtain p1 where p1: "iteration X ev p = Some p1" "run X evs p1 = Some p'"
    by (auto split: option.splits)
  from Cons.prems(2) have ev: "ev \<noteq> RecvDying" and evs: "RecvDying \<notin> set evs" by auto
  from handle_inv_iteration [OF Cons.prems(1) ev p1(1)]
  have h1: "handle_inv p1"
    and s1: "successes X p1 = successes X p + (if at p = Idle \<and> at p1 = Active then 1 else 0)"
    by simp_all
  from Cons.IH [OF h1 evs p1(2)] s1 p1(1) show ?case by simp
qed

lemma config_run_exists:
  assumes "handle_inv p"
  shows "\<exists>p'. run X (map RecvConfig cs) p = Some p'"
  using assms
proof (induction cs arbitrary: p)
  case Nil
  then show ?case by simp
next
  case (Cons c cs)
  have "\<exists>p1. iteration X (RecvConfig c) p = Some p1"
    using Cons.prems
    by (auto simp: handle_inv_def iteration_def loop_iteration_def innerLoop_iteration_def Let_def
          frame split: option.splits sum.splits)
  then obtain p1 where p1: "iteration X (RecvConfig c) p = Some p1" by blast
  from handle_inv_iteration [OF Cons.prems _ p1] have "handle_inv p1" by simp
  from Cons.IH [OF this] p1 show ?case by simp
qed

lemma handle_inv_NewProvisioner:
  "handle_inv (NewProvisioner st)" "successes X (NewProvisioner st) = 0"
  by (simp_all add: handle_inv_def NewProvisioner_def successes_def)

lemma handle_inv_iff: "handle_inv p \<Longrightarrow> (environ p \<noteq> None) = (at p = Active)"
  by (auto simp: handle_inv_def)

text \<open>
  C3. Take a new provisioner and any sequence of \<^verbatim>\<open>select\<close> outcomes in which
  cancellation is not received: snapshots delivered on the configuration channel, with
  or without closes of the two channels and machines changes in between. Wherever the
  run stands, the number of its passages from \<open>Idle\<close> to \<open>Active\<close> is the number of
  successful calls of \<^verbatim>\<open>NewEnviron\<close>, the provisioner holds at most one handle (its
  struct has one field for it), and it holds a handle exactly when the goroutine is in
  \<open>Active\<close>. A sequence of outcomes of the configuration channel alone can always be run
  to its end.
\<close>

theorem handle_exactly_when_Active:
  "(RecvDying \<notin> set evs \<and> run X evs (NewProvisioner st) = Some p \<longrightarrow>
       activations X evs (NewProvisioner st) = successes X p
       \<and> length (handles p) \<le> 1
       \<and> ((environ p \<noteq> None) = (at p = Active)))
   \<and> (\<exists>p'. run X (map RecvConfig cs) (NewProvisioner st) = Some p'
         \<and> activations X (map RecvConfig cs) (NewProvisioner st) = successes X p'
         \<and> length (handles p') \<le> 1
         \<and> ((environ p' \<noteq> None) = (at p' = Active)))"
proof -
  have len: "length (handles q) \<le> 1" for q :: "'a Provisioner"
    by (simp add: handles_def split: option.splits)
  have gen: "activations X evs' (NewProvisioner st) = successes X q
             \<and> ((environ q \<noteq> None) = (at q = Active))"
    if "RecvDying \<notin> set evs'" and "run X evs' (NewProvisioner st) = Some q" for evs' q
    using handle_inv_run [OF handle_inv_NewProvisioner(1) that] handle_inv_NewProvisioner(2) [of X st]
      handle_inv_iff [of q]
    by simp
  obtain p' where p': "run X (map RecvConfig cs) (NewProvisioner st) = Some p'"
    using config_run_exists [OF handle_inv_NewProvisioner(1)] by blast
  have "RecvDying \<notin> set (map RecvConfig cs)" by auto
  from gen [OF this p'] p' len [of p'] gen len [of p] show ?thesis
    by blast
qed

theorem handle_exactly_when_Active_witness:
  "RecvDying \<notin> set [RecvConfig (Some bad_config), RecvConfig (Some dummy_config), RecvConfig None,
                      RecvMachines None, RecvConfig (Some dummy_config_extra)]
   \<and> (\<exists>p. run dummy_externs
              [RecvConfig (Some bad_config), RecvConfig (Some dummy_config), RecvConfig None,
               RecvMachines None, RecvConfig (Some dummy_config_extra)]
              (NewProvisioner fresh_store) = Some p
         \<and> activations dummy_externs
              [RecvConfig (Some bad_config), RecvConfig (Some dummy_config), RecvConfig None,
               RecvMachines None, RecvConfig (Some dummy_config_extra)]
              (NewProvisioner fresh_store) = successes dummy_externs p
         \<and> successes dummy_externs p = 1
         \<and> environ p = Some (DummyEnviron [(''type'', ''dummy''), (''extra'', ''x'')])
         \<and> at p = Active)"
proof -
  let ?evs = "[RecvConfig (Some bad_config), RecvConfig (Some dummy_config), RecvConfig None,
               RecvMachines None, RecvConfig (Some dummy_config_extra)]"
  have d: "RecvDying \<notin> set ?evs" by simp
  obtain p where p: "run dummy_externs ?evs (NewProvisioner fresh_store) = Some p"
    and s: "successes dummy_externs p = 1"
    and e: "environ p = Some (DummyEnviron [(''type'', ''dummy''), (''extra'', ''x'')])"
    by (simp add: dummy_defs goroutine_defs successes_def)
  from handle_exactly_when_Active [of ?evs dummy_externs fresh_store p] d p s e show ?thesis
    by (auto simp del: run.simps activations.simps)
qed

text \<open>
  C1, as the code has it. When the goroutine is in \<^verbatim>\<open>innerLoop\<close> (\<open>Active\<close>) and the
  configuration channel is closed, the iteration invalidates the environment holder and
  goes on with the \<^verbatim>\<open>for\<close> of \<^verbatim>\<open>innerLoop\<close>. The configuration watcher that the
  \<^verbatim>\<open>select\<close> was reading (the one the holder had, or the one opened on entering the
  \<^verbatim>\<open>select\<close>) is stopped on the store and is no longer live, one line is logged with
  what its \<^verbatim>\<open>Stop\<close> returned, and the holder is left without a watcher. The goroutine
  stays in \<open>Active\<close> and keeps its handle, and nothing outside is called. A valid
  snapshot received next is applied to that same handle with \<^verbatim>\<open>SetConfig\<close>, on a
  watch newly opened on entering that \<^verbatim>\<open>select\<close>; \<^verbatim>\<open>NewEnviron\<close> is not called.
\<close>

theorem config_closed_in_Active:
  assumes "at p = Active"
  shows "\<exists>p' i. iteration X (RecvConfig None) p = Some p'
           \<and> at p' = Active \<and> environ p' = environ p \<and> calls p' = calls p
           \<and> e_watcher (environment p') = None
           \<and> i = (case e_watcher (environment p) of
                     Some k \<Rightarrow> k | None \<Rightarrow> config_opened (store (world p)))
           \<and> config_stopped (store (world p')) = config_stopped (store (world p)) @ [i]
           \<and> i \<notin> set (config_live (store (world p')))
           \<and> logged (world p') = logged (world p) @ [EnvironmentWatcherExited (config_stop_err X i)]
           \<and> (\<forall>change config env.
                 NewConfig X (Map change) = Inr config \<and> environ p = Some env \<longrightarrow>
                 (\<exists>p''. iteration X (RecvConfig (Some change)) p' = Some p''
                    \<and> at p'' = Active
                    \<and> environ p'' = Some (SetConfig X config env)
                    \<and> calls p'' = calls p @ [CallNewConfig (Map change), CallSetConfig]
                    \<and> constructions p'' = constructions p
                    \<and> (\<exists>i. e_watcher (environment p'') = Some i)
                    \<and> e_watcher (environment p'') = Some (config_opened (store (world p')))
                    \<and> config_opened (store (world p'')) = Suc (config_opened (store (world p')))
                    \<and> config_stopped (store (world p'')) = config_stopped (store (world p'))
                    \<and> logged (world p'') = logged (world p') @ [NewConfigurationApplied]))"
proof -
  define p1 where "p1 = snd (p_environment_changes p)"
  define p2 where "p2 = snd (p_machines_changes p1)"
  define p' where "p' = p_environment_invalidate X p2"
  define i where "i = (case e_watcher (environment p) of
                         Some k \<Rightarrow> k | None \<Rightarrow> config_opened (store (world p)))"
  have it: "iteration X (RecvConfig None) p = Some p'"
    using assms by (simp add: iteration_def innerLoop_iteration_def Let_def p'_def p2_def p1_def)
  have w2: "e_watcher (environment p2) = Some i"
    by (simp add: p2_def p1_def i_def frame p_environment_changes_watcher)
  have f2: "config_stopped (store (world p2)) = config_stopped (store (world p))"
    "logged (world p2) = logged (world p)"
    by (simp_all add: p2_def p1_def frame)
  have stopped: "config_stopped (store (world p')) = config_stopped (store (world p)) @ [i]"
    and log: "logged (world p') = logged (world p) @ [EnvironmentWatcherExited (config_stop_err X i)]"
    using p_environment_invalidate_effect [OF w2, of X] f2 by (simp_all add: p'_def)
  have dead: "i \<notin> set (config_live (store (world p')))"
    using stopped by (rule stopped_not_live(1))
  have rest: "at p' = Active" "environ p' = environ p" "calls p' = calls p"
    "e_watcher (environment p') = None"
    using assms by (simp_all add: p'_def p2_def p1_def frame)
  have nxt: "\<exists>p''. iteration X (RecvConfig (Some change)) p' = Some p''
          \<and> at p'' = Active
          \<and> environ p'' = Some (SetConfig X config env)
          \<and> calls p'' = calls p @ [CallNewConfig (Map change), CallSetConfig]
          \<and> constructions p'' = constructions p
          \<and> (\<exists>i. e_watcher (environment p'') = Some i)
          \<and> e_watcher (environment p'') = Some (config_opened (store (world p')))
          \<and> config_opened (store (world p'')) = Suc (config_opened (store (world p')))
          \<and> config_stopped (store (world p'')) = config_stopped (store (world p'))
          \<and> logged (world p'') = logged (world p') @ [NewConfigurationApplied]"
    if "NewConfig X (Map change) = Inr config" and "environ p = Some env" for change config env
    using that rest
    by (simp add: iteration_def innerLoop_iteration_def Let_def frame constructions_def
          p_environment_changes_watcher p_machines_changes_watcher record_call_def)
  from it rest stopped dead log i_def nxt show ?thesis by blast
qed

theorem config_closed_in_Active_witness:
  "\<exists>p p' p''. run dummy_externs [RecvConfig (Some dummy_config)] (NewProvisioner fresh_store) = Some p
      \<and> at p = Active
      \<and> iteration dummy_externs (RecvConfig None) p = Some p'
      \<and> at p' = Active
      \<and> environ p' = Some (DummyEnviron [(''type'', ''dummy'')])
      \<and> config_stopped (store (world p')) = [0]
      \<and> 0 \<notin> set (config_live (store (world p')))
      \<and> logged (world p') = [ValidEnvironmentConfigured, EnvironmentWatcherExited None]
      \<and> NewConfig dummy_externs (Map dummy_config_extra) = Inr [(''type'', ''dummy''), (''extra'', ''x'')]
      \<and> iteration dummy_externs (RecvConfig (Some dummy_config_extra)) p' = Some p''
      \<and> at p'' = Active
      \<and> environ p'' = Some (DummyEnviron [(''type'', ''dummy''), (''extra'', ''x'')])
      \<and> constructions p'' = 1"
proof -
  obtain p where p: "run dummy_externs [RecvConfig (Some dummy_config)] (NewProvisioner fresh_store) = Some p"
    and a: "at p = Active" and e: "environ p = Some (DummyEnviron [(''type'', ''dummy'')])"
    and c: "constructions p = 1"
    and w: "e_watcher (environment p) = Some 0" "config_stopped (store (world p)) = []"
    and l: "logged (world p) = [ValidEnvironmentConfigured]"
    by (simp add: dummy_defs goroutine_defs constructions_def)
  have n: "NewConfig dummy_externs (Map dummy_config_extra) = Inr [(''type'', ''dummy''), (''extra'', ''x'')]"
    and s: "SetConfig dummy_externs [(''type'', ''dummy''), (''extra'', ''x'')] (DummyEnviron [(''type'', ''dummy'')])
              = DummyEnviron [(''type'', ''dummy''), (''extra'', ''x'')]"
    and x: "config_stop_err dummy_externs 0 = None"
    by (simp_all add: dummy_defs)
  from config_closed_in_Active [OF a, of dummy_externs] obtain p' i where
    all: "iteration dummy_externs (RecvConfig None) p = Some p'
           \<and> at p' = Active \<and> environ p' = environ p \<and> calls p' = calls p
           \<and> e_watcher (environment p') = None
           \<and> i = (case e_watcher (environment p) of
                     Some k \<Rightarrow> k | None \<Rightarrow> config_opened (store (world p)))
           \<and> config_stopped (store (world p')) = config_stopped (store (world p)) @ [i]
           \<and> i \<notin> set (config_live (store (world p')))
           \<and> logged (world p') =
                logged (world p) @ [EnvironmentWatcherExited (config_stop_err dummy_externs i)]
           \<and> (\<forall>change config env.
                 NewConfig dummy_externs (Map change) = Inr config \<and> environ p = Some env \<longrightarrow>
                 (\<exists>p''. iteration dummy_externs (RecvConfig (Some change)) p' = Some p''
                    \<and> at p'' = Active
                    \<and> environ p'' = Some (SetConfig dummy_externs config env)
                    \<and> calls p'' = calls p @ [CallNewConfig (Map change), CallSetConfig]
                    \<and> constructions p'' = constructions p
                    \<and> (\<exists>i. e_watcher (environment p'') = Some i)
                    \<and> e_watcher (environment p'') = Some (config_opened (store (world p')))
                    \<and> config_opened (store (world p'')) = Suc (config_opened (store (world p')))
                    \<and> config_stopped (store (world p'')) = config_stopped (store (world p'))
                    \<and> logged (world p'') = logged (world p') @ [NewConfigurationApplied]))"
    by (elim exE) (rule that)
  note c1 = all [THEN conjunct1] and r1 = all [THEN conjunct2]
  note c2 = r1 [THEN conjunct1] and r2 = r1 [THEN conjunct2]
  note c3 = r2 [THEN conjunct1] and r3 = r2 [THEN conjunct2]
  note r4 = r3 [THEN conjunct2]
  note r5 = r4 [THEN conjunct2]
  note c6 = r5 [THEN conjunct1] and r6 = r5 [THEN conjunct2]
  note c7 = r6 [THEN conjunct1] and r7 = r6 [THEN conjunct2]
  note c8 = r7 [THEN conjunct1] and r8 = r7 [THEN conjunct2]
  note c9 = r8 [THEN conjunct1] and r9 = r8 [THEN conjunct2]
  note p' = c1 c2 c3 c6 c7 c8 c9
  have nxt: "\<exists>p''. iteration dummy_externs (RecvConfig (Some change)) p' = Some p''
          \<and> at p'' = Active
          \<and> environ p'' = Some (SetConfig dummy_externs config env)
          \<and> constructions p'' = constructions p"
    if h: "NewConfig dummy_externs (Map change) = Inr config" "environ p = Some env"
    for change config env
  proof -
    from r9 [rule_format, of change config env] h obtain p'' where
      "iteration dummy_externs (RecvConfig (Some change)) p' = Some p''
           \<and> at p'' = Active
           \<and> environ p'' = Some (SetConfig dummy_externs config env)
           \<and> calls p'' = calls p @ [CallNewConfig (Map change), CallSetConfig]
           \<and> constructions p'' = constructions p
           \<and> (\<exists>i. e_watcher (environment p'') = Some i)
           \<and> e_watcher (environment p'') = Some (config_opened (store (world p')))
           \<and> config_opened (store (world p'')) = Suc (config_opened (store (world p')))
           \<and> config_stopped (store (world p'')) = config_stopped (store (world p'))
           \<and> logged (world p'') = logged (world p') @ [NewConfigurationApplied]"
      by blast
    then show ?thesis by blast
  qed
  from p'(4) w(1) have i: "i = 0" by simp
  from nxt [OF n e] obtain p'' where
    p'': "iteration dummy_externs (RecvConfig (Some dummy_config_extra)) p' = Some p''"
         "at p'' = Active"
         "environ p'' = Some (SetConfig dummy_externs [(''type'', ''dummy''), (''extra'', ''x'')]
                                (DummyEnviron [(''type'', ''dummy'')]))"
         "constructions p'' = constructions p"
    by blast
  have e': "environ p' = Some (DummyEnviron [(''type'', ''dummy'')])"
    using p'(3) e by simp
  have st: "config_stopped (store (world p')) = [0]"
    using p'(5) w(2) i by simp
  have nl: "0 \<notin> set (config_live (store (world p')))"
    using p'(6) i by simp
  have lg: "logged (world p') = [ValidEnvironmentConfigured, EnvironmentWatcherExited None]"
    using p'(7) l x i by simp
  have e'': "environ p'' = Some (DummyEnviron [(''type'', ''dummy''), (''extra'', ''x'')])"
    using p''(3) s by simp
  have c'': "constructions p'' = 1"
    using p''(4) c by simp
  show ?thesis
    using p a p'(1) p'(2) e' st nl lg n p''(1) p''(2) e'' c'' by blast
qed

text \<open>
  The run that the claim C1 describes, on the code: a valid snapshot, then the
  configuration channel closed, then a second valid snapshot. After the close the
  goroutine is in \<open>Active\<close> (not \<open>Idle\<close>) and holds the handle of the first snapshot;
  its watch 0 is stopped, no watch is live and the exit of the watcher is logged. After
  the second snapshot \<^verbatim>\<open>NewEnviron\<close> has been called once in all, the second snapshot
  was applied with \<^verbatim>\<open>SetConfig\<close>, and the new watch 1 is live.
\<close>

theorem config_closed_in_Active_counterexample:
  "map_option observe
     (run dummy_externs [RecvConfig (Some dummy_config), RecvConfig None] (NewProvisioner fresh_store))
     = Some (Active, Some (DummyEnviron [(''type'', ''dummy'')]),
             [CallNewEnviron [(''type'', ''dummy'')]])
   \<and> map_option observe
     (run dummy_externs [RecvConfig (Some dummy_config), RecvConfig None,
                         RecvConfig (Some dummy_config_extra)] (NewProvisioner fresh_store))
     = Some (Active, Some (DummyEnviron [(''type'', ''dummy''), (''extra'', ''x'')]),
             [CallNewEnviron [(''type'', ''dummy'')],
              CallNewConfig [(''type'', ''dummy''), (''extra'', ''x'')],
              CallSetConfig])
   \<and> map_option observe_watches
     (run dummy_externs [RecvConfig (Some dummy_config), RecvConfig None] (NewProvisioner fresh_store))
     = Some ([0], [], [ValidEnvironmentConfigured, EnvironmentWatcherExited None])
   \<and> map_option observe_watches
     (run dummy_externs [RecvConfig (Some dummy_config), RecvConfig None,
                         RecvConfig (Some dummy_config_extra)] (NewProvisioner fresh_store))
     = Some ([0], [1], [ValidEnvironmentConfigured, EnvironmentWatcherExited None,
                        NewConfigurationApplied])"
  by (simp add: dummy_defs goroutine_defs observe_watches_def config_live_def)

text \<open>
  C9, on the code. Cancellation received in \<^verbatim>\<open>innerLoop\<close> makes \<^verbatim>\<open>innerLoop\<close> return to
  \<^verbatim>\<open>loop\<close>, which goes on with its \<^verbatim>\<open>for\<close>: the goroutine is at \<open>Idle\<close>, not
  \<open>Exited\<close>. If the next \<^verbatim>\<open>select\<close> of \<^verbatim>\<open>loop\<close> takes a pending snapshot rather than
  the closed \<^verbatim>\<open>Dying\<close> channel, the goroutine builds a second environment, enters
  \<^verbatim>\<open>innerLoop\<close> again and serves a pending machines change. Only cancellation received
  in \<^verbatim>\<open>loop\<close> ends the goroutine.
\<close>

theorem cancellation_in_innerLoop_returns_to_loop:
  "map_option observe
     (run dummy_externs [RecvConfig (Some dummy_config), RecvDying] (NewProvisioner fresh_store))
     = Some (Idle, Some (DummyEnviron [(''type'', ''dummy'')]),
             [CallNewEnviron [(''type'', ''dummy'')]])
   \<and> map_option observe
     (run dummy_externs [RecvConfig (Some dummy_config), RecvDying,
                         RecvConfig (Some dummy_config_extra),
                         RecvMachines (Some (MachinesChange [''0'']))] (NewProvisioner fresh_store))
     = Some (Active, Some (DummyEnviron [(''type'', ''dummy''), (''extra'', ''x'')]),
             [CallNewEnviron [(''type'', ''dummy'')],
              CallNewEnviron [(''type'', ''dummy''), (''extra'', ''x'')],
              CallProcessMachines (MachinesChange [''0''])])
   \<and> map_option observe
     (run dummy_externs [RecvConfig (Some dummy_config), RecvDying, RecvDying]
        (NewProvisioner fresh_store))
     = Some (Exited, Some (DummyEnviron [(''type'', ''dummy'')]),
             [CallNewEnviron [(''type'', ''dummy'')]])"
  by (simp add: dummy_defs goroutine_defs)

end
